theory Spec2Isabelle
  imports Main
begin

section \<open>The Sidebar component of \<open>src/app/page.tsx\<close>\<close>

text \<open>
  The component under study is \<open>Sidebar\<close> (\<open>src/app/page.tsx\<close>, lines 1136--1269; the same
  text is in \<open>src/unnamed/part_001\<close>). It owns two pieces of React state, \<open>expandedItems\<close>
  (an array of ids) and \<open>searchQuery\<close> (a string), and renders a list of \<open>SidebarItem\<close>s
  grouped by category.

  A JavaScript string is a sequence of code units: it is a list over a type \<open>'c\<close> of code
  units, which the development leaves open, so that every statement holds of the 16-bit
  code units of JavaScript as of any other alphabet; the scenarios are written in ASCII,
  over \<^typ>\<open>char\<close>. Equality of strings (\<open>===\<close>, \<open>Array.prototype.includes\<close>) is equality of
  these lists. An optional field \<open>f?: T\<close> is a \<open>T option\<close>, \<open>None\<close> standing for \<open>undefined\<close>.
  The callbacks are opaque: they are values of a type \<open>'cb\<close>.
\<close>

subsection \<open>Data\<close>

text \<open>\<open>badge?: string | number\<close>; the numbers are modelled as integers.\<close>

datatype 'c badge = BadgeString "'c list" | BadgeNumber int

text \<open>
  \<open>icon?: React.ReactNode\<close>. A node is opaque (a value of a type \<open>'n\<close>) but for what the
  component asks of it, whether JavaScript reads it as true: \<open>Falsy\<close> are the empty string,
  \<open>0\<close>, \<open>NaN\<close>, \<open>false\<close> and \<open>null\<close>, \<open>Truthy\<close> every other node.
\<close>

datatype 'n ReactNode = Truthy 'n | Falsy 'n

text \<open>
  \<open>interface SidebarItem { id; label; icon?; badge?; active?; onClick?; children?; category? }\<close>.
  The field \<open>id\<close> is named \<open>item_id\<close> here, \<open>id\<close> being the identity function of HOL.
\<close>

datatype ('c, 'n, 'cb) SidebarItem =
  SidebarItem (item_id: "'c list") (label: "'c list") (icon: "'n ReactNode option")
    (badge: "'c badge option") (active: "bool option") (onClick: "'cb option")
    (children: "('c, 'n, 'cb) SidebarItem list option") (category: "'c list option")

text \<open>The two \<open>useState\<close> cells of the component, and their initial values.\<close>

record 'c sidebar_state =
  expandedItems :: "'c list list"
  searchQuery :: "'c list"

definition initial_state :: "'c sidebar_state" where
  "initial_state = \<lparr>expandedItems = [], searchQuery = []\<rparr>"

subsection \<open>State updates\<close>

text \<open>
  \<open>setExpandedItems(f)\<close> with an updater function, and \<open>setSearchQuery(text)\<close>: each writes its
  own cell.
\<close>

definition setExpandedItems ::
  "('c list list \<Rightarrow> 'c list list) \<Rightarrow> 'c sidebar_state \<Rightarrow> 'c sidebar_state" where
  "setExpandedItems f st = st\<lparr>expandedItems := f (expandedItems st)\<rparr>"

definition setSearchQuery :: "'c list \<Rightarrow> 'c sidebar_state \<Rightarrow> 'c sidebar_state" where
  "setSearchQuery text st = st\<lparr>searchQuery := text\<rparr>"

text \<open>
  \<^verbatim>\<open>
  const toggleExpanded = (id: string) => {
    setExpandedItems(prev =>
      prev.includes(id) ? prev.filter(item => item !== id) : [...prev, id]);
  };
  \<close>
\<close>

definition toggleExpanded :: "'c list \<Rightarrow> 'c sidebar_state \<Rightarrow> 'c sidebar_state" where
  "toggleExpanded i st =
     setExpandedItems (\<lambda>prev. if i \<in> set prev then filter (\<lambda>item. item \<noteq> i) prev else prev @ [i]) st"

text \<open>The \<open>onChange\<close> handler of the search input: \<open>(e) => setSearchQuery(e.target.value)\<close>.\<close>

definition search_onChange :: "'c list \<Rightarrow> 'c sidebar_state \<Rightarrow> 'c sidebar_state" where
  "search_onChange target_value st = setSearchQuery target_value st"

text \<open>
  The \<open>onClick\<close> handler of an item's button. An array, also an empty one, is truthy in
  JavaScript, so the test \<open>if (item.children)\<close> asks whether the field is defined. The result
  is the new state and the callbacks invoked, in order.
  \<^verbatim>\<open>
  onClick={() => {
    if (item.children) { toggleExpanded(item.id); } else { item.onClick?.(); }
  }}
  \<close>
\<close>

definition item_click ::
  "('c, 'n, 'cb) SidebarItem \<Rightarrow> 'c sidebar_state \<Rightarrow> 'c sidebar_state \<times> 'cb list" where
  "item_click item st =
     (case children item of
        Some cs \<Rightarrow> (toggleExpanded (item_id item) st, [])
      | None \<Rightarrow> (st, case onClick item of Some cb \<Rightarrow> [cb] | None \<Rightarrow> []))"

text \<open>A sequence of \<open>toggleExpanded\<close> calls, run from left to right.\<close>

definition toggle_all :: "'c list list \<Rightarrow> 'c sidebar_state \<Rightarrow> 'c sidebar_state" where
  "toggle_all ids st = foldl (\<lambda>s i. toggleExpanded i s) st ids"

subsection \<open>Strings\<close>

text \<open>
  \<open>String.prototype.toLowerCase\<close> is a built-in of the platform, with the case tables of
  Unicode behind it; it is not code of the repository. Its result on a non-empty string is
  a parameter of the model, the function \<open>lower\<close>, about which nothing is assumed (it need
  not work character by character, nor keep the length); the empty string has nothing to
  convert and is its own lower-case form.
\<close>

definition toLowerCase :: "('c list \<Rightarrow> 'c list) \<Rightarrow> 'c list \<Rightarrow> 'c list" where
  "toLowerCase lower s = (if s = [] then [] else lower s)"

text \<open>
  On ASCII text the built-in sends the letters \<open>A\<close> to \<open>Z\<close> to \<open>a\<close> to \<open>z\<close> and keeps every
  other character; this is the \<open>lower\<close> of the scenarios, which are written in ASCII.
\<close>

definition ascii_lower_char :: "char \<Rightarrow> char" where
  "ascii_lower_char c =
     (case map_of (zip ''ABCDEFGHIJKLMNOPQRSTUVWXYZ'' ''abcdefghijklmnopqrstuvwxyz'') c of
        Some d \<Rightarrow> d
      | None \<Rightarrow> c)"

definition ascii_lower :: "string \<Rightarrow> string" where
  "ascii_lower s = map ascii_lower_char s"

text \<open>
  \<open>String.prototype.includes\<close>: \<open>str_includes s q\<close> is \<open>s.includes(q)\<close>, true when \<open>q\<close> occurs
  in \<open>s\<close> at some position; \<open>startsWith s q\<close> compares at position 0.
\<close>

fun startsWith :: "'a list \<Rightarrow> 'a list \<Rightarrow> bool" where
  "startsWith s [] = True"
| "startsWith [] (c # q) = False"
| "startsWith (d # s) (c # q) = (d = c \<and> startsWith s q)"

fun str_includes :: "'a list \<Rightarrow> 'a list \<Rightarrow> bool" where
  "str_includes [] q = (q = [])"
| "str_includes (d # s) q = (startsWith (d # s) q \<or> str_includes s q)"

text \<open>
  The decimal text of an array length, as React renders a number, and the number that a
  text of digits denotes.
\<close>

definition digit :: "nat \<Rightarrow> char" where
  "digit n = ''0123456789'' ! n"

fun String_of_nat :: "nat \<Rightarrow> string" where
  "String_of_nat n = (if n < 10 then [digit n] else String_of_nat (n div 10) @ [digit (n mod 10)])"

declare String_of_nat.simps [simp del]

definition digit_value :: "char \<Rightarrow> nat" where
  "digit_value c =
     (case map_of (zip ''0123456789'' [0, 1, 2, 3, 4, 5, 6, 7, 8, 9]) c of
        Some k \<Rightarrow> k
      | None \<Rightarrow> 0)"

definition decimal_value :: "string \<Rightarrow> nat" where
  "decimal_value s = foldl (\<lambda>acc c. 10 * acc + digit_value c) 0 s"

subsection \<open>Filtering\<close>

text \<open>
  \<^verbatim>\<open>
  const filteredItems = items.filter(item =>
    item.label.toLowerCase().includes(searchQuery.toLowerCase()) ||
    item.category?.toLowerCase().includes(searchQuery.toLowerCase())
  );
  \<close>
  With \<open>category\<close> undefined the second disjunct is \<open>undefined\<close>, which \<open>filter\<close> reads as false.
\<close>

definition matches_query ::
  "('c list \<Rightarrow> 'c list) \<Rightarrow> 'c list \<Rightarrow> ('c, 'n, 'cb) SidebarItem \<Rightarrow> bool" where
  "matches_query lower q item =
     (str_includes (toLowerCase lower (label item)) (toLowerCase lower q)
      \<or> (case category item of
            None \<Rightarrow> False
          | Some c \<Rightarrow> str_includes (toLowerCase lower c) (toLowerCase lower q)))"

definition filteredItems ::
  "('c list \<Rightarrow> 'c list) \<Rightarrow> ('c, 'n, 'cb) SidebarItem list \<Rightarrow> 'c list
     \<Rightarrow> ('c, 'n, 'cb) SidebarItem list" where
  "filteredItems lower items q = filter (matches_query lower q) items"

text \<open>
  The words of the specification, for comparison with the code: a text \<open>t\<close> contains \<open>q\<close> as a
  case-insensitive substring when, the case of letters set aside, \<open>q\<close> occurs in \<open>t\<close>: the
  lower-case form of \<open>t\<close> is some text, then the lower-case form of \<open>q\<close>, then some text. An
  entry matches when its label does, or it has a category that does.
\<close>

definition contains_ignoring_case :: "('c list \<Rightarrow> 'c list) \<Rightarrow> 'c list \<Rightarrow> 'c list \<Rightarrow> bool" where
  "contains_ignoring_case lower t q =
     (\<exists>before after. toLowerCase lower t = before @ toLowerCase lower q @ after)"

definition spec_matches ::
  "('c list \<Rightarrow> 'c list) \<Rightarrow> 'c list \<Rightarrow> ('c, 'n, 'cb) SidebarItem \<Rightarrow> bool" where
  "spec_matches lower q item =
     (contains_ignoring_case lower (label item) q
      \<or> (\<exists>c. category item = Some c \<and> contains_ignoring_case lower c q))"

subsection \<open>Rendering\<close>

text \<open>
  What \<open>{item.badge && (<span>{item.badge}</span>)}\<close> leaves in the tree: nothing for
  \<open>undefined\<close> and for the empty string, the bare number for \<open>0\<close> (React renders a number that
  \<open>&&\<close> lets through), the decorated span otherwise.
\<close>

datatype 'c badge_view = BadgeSpan "'c badge" | BareNumber int

fun badge_slot :: "'c badge option \<Rightarrow> 'c badge_view option" where
  "badge_slot None = None"
| "badge_slot (Some (BadgeString s)) = (if s = [] then None else Some (BadgeSpan (BadgeString s)))"
| "badge_slot (Some (BadgeNumber n)) =
     (if n = 0 then Some (BareNumber n) else Some (BadgeSpan (BadgeNumber n)))"

text \<open>
  What \<open>{item.icon && <span>{item.icon}</span>}\<close> leaves in the tree: nothing for \<open>undefined\<close>,
  the span around a truthy node, and for a falsy node the node itself, without a span
  (\<open>&&\<close> yields its left operand, of which React shows a \<open>0\<close> and nothing else).
\<close>

datatype 'n icon_view = IconSpan 'n | BareNode 'n

fun icon_slot :: "'n ReactNode option \<Rightarrow> 'n icon_view option" where
  "icon_slot None = None"
| "icon_slot (Some (Truthy n)) = Some (IconSpan n)"
| "icon_slot (Some (Falsy n)) = Some (BareNode n)"

text \<open>
  One rendered entry: the \<open>div\<close> keyed by the item's id, with its button and, below it, the
  rows of its children when they are shown. \<open>row_item\<close> is the item the button's click
  handler closes over (the click target), \<open>row_active\<close> selects the highlighted class,
  \<open>row_paddingLeft\<close> is in pixels, \<open>row_indicator\<close> is the expand arrow (\<open>Some True\<close> when
  rotated), and a field that is \<open>None\<close> is an element that is not in the tree.
\<close>

datatype ('c, 'n, 'cb) row =
  Row (row_key: "'c list") (row_item: "('c, 'n, 'cb) SidebarItem") (row_active: bool)
    (row_paddingLeft: nat) (row_icon: "'n icon_view option") (row_label: "'c list option")
    (row_badge: "'c badge_view option") (row_indicator: "bool option")
    (row_children: "('c, 'n, 'cb) row list option")

text \<open>
  \<open>renderSidebarItem(item, level = 0)\<close>; \<open>collapsed\<close> and \<open>expandedItems\<close> are the variables of
  the enclosing component that the closure reads.
  \<^verbatim>\<open>
  <div key={item.id}>
    <button onClick={...} className={... item.active ? ... : ...}
            style={{ paddingLeft: `${level * 12 + 12}px` }}>
      {item.icon && <span>{item.icon}</span>}
      {!collapsed && (<>
          <span>{item.label}</span>
          {item.badge && (<span>{item.badge}</span>)}
          {item.children && (<span className={... expandedItems.includes(item.id) ? 'rotate-180' : ''}/>)}
      </>)}
    </button>
    {!collapsed && item.children && expandedItems.includes(item.id) && (
      <div>{item.children.map(child => renderSidebarItem(child, level + 1))}</div>)}
  </div>
  \<close>
\<close>

fun renderSidebarItem ::
  "bool \<Rightarrow> 'c list list \<Rightarrow> ('c, 'n, 'cb) SidebarItem \<Rightarrow> nat \<Rightarrow> ('c, 'n, 'cb) row" where
  "renderSidebarItem collapsed expanded (SidebarItem i l ic b a oc ch cat) level =
     Row i (SidebarItem i l ic b a oc ch cat) (a = Some True) (level * 12 + 12) (icon_slot ic)
       (if \<not> collapsed then Some l else None)
       (if \<not> collapsed then badge_slot b else None)
       (if \<not> collapsed \<and> ch \<noteq> None then Some (i \<in> set expanded) else None)
       (case ch of
          None \<Rightarrow> None
        | Some cs \<Rightarrow>
            if \<not> collapsed \<and> i \<in> set expanded
            then Some (map (\<lambda>child. renderSidebarItem collapsed expanded child (level + 1)) cs)
            else None)"

text \<open>Every row of a rendered entry, the nested ones included.\<close>

fun all_rows :: "('c, 'n, 'cb) row \<Rightarrow> ('c, 'n, 'cb) row list" where
  "all_rows (Row k it a p ic l b ind ch) =
     Row k it a p ic l b ind ch
       # (case ch of None \<Rightarrow> [] | Some rs \<Rightarrow> concat (map all_rows rs))"

text \<open>
  \<open>new Set(xs)\<close> spread back into an array: the values of \<open>xs\<close> in the order of their first
  occurrence, each once. \<open>Boolean\<close> on an optional string is false for \<open>undefined\<close> and for
  the empty string.
  \<^verbatim>\<open>
  const categories = [...new Set(items.map(item => item.category).filter(Boolean))];
  \<close>
\<close>

definition new_Set :: "'a list \<Rightarrow> 'a list" where
  "new_Set xs = foldl (\<lambda>acc x. if x \<in> set acc then acc else acc @ [x]) [] xs"

definition Boolean_string :: "'c list option \<Rightarrow> bool" where
  "Boolean_string c = (case c of None \<Rightarrow> False | Some s \<Rightarrow> s \<noteq> [])"

definition categories :: "('c, 'n, 'cb) SidebarItem list \<Rightarrow> 'c list option list" where
  "categories items = new_Set (filter Boolean_string (map category items))"

text \<open>
  The children of the results line, as JSX gives them to React: the number of entries, the
  text of the source between the braces, the search text, and the closing quote.
  \<^verbatim>\<open>
  {filteredItems.length} results for "{searchQuery}"
  \<close>
\<close>

datatype 'c text_piece = Number nat | Literal string | Chars "'c list"

definition results_line :: "nat \<Rightarrow> 'c list \<Rightarrow> 'c text_piece list" where
  "results_line n q = [Number n, Literal ('' results for '' @ [CHR 0x22]), Chars q, Literal [CHR 0x22]]"

text \<open>The text a reader sees for such children, over \<^typ>\<open>char\<close>.\<close>

fun piece_text :: "char text_piece \<Rightarrow> string" where
  "piece_text (Number n) = String_of_nat n"
| "piece_text (Literal s) = s"
| "piece_text (Chars s) = s"

definition textContent :: "char text_piece list \<Rightarrow> string" where
  "textContent ps = concat (map piece_text ps)"

text \<open>
  The rendered panel. \<open>view_title\<close> is the \<open>h2\<close> of the header, \<open>view_search\<close> the value shown
  in the search input, \<open>view_indicator\<close> the results line, \<open>view_groups\<close> the category blocks
  in order, each the heading's text (the block's key) with the rows below it, and
  \<open>view_empty\<close> the notice \<open>No components found\<close>.
  \<^verbatim>\<open>
  {searchQuery && (<div>{filteredItems.length} results for "{searchQuery}"</div>)}
  {categories.map(category => (
    <div key={category}>
      <div>{category}</div>
      {filteredItems.filter(item => item.category === category)
                    .map(item => renderSidebarItem(item))}
    </div>))}
  {filteredItems.length === 0 && (<div>No components found</div>)}
  \<close>
\<close>

record ('c, 'n, 'cb) sidebar_view =
  view_title :: bool
  view_search :: "'c list option"
  view_indicator :: "'c text_piece list option"
  view_groups :: "('c list option \<times> ('c, 'n, 'cb) row list) list"
  view_empty :: bool

definition Sidebar ::
  "('c list \<Rightarrow> 'c list) \<Rightarrow> ('c, 'n, 'cb) SidebarItem list \<Rightarrow> bool \<Rightarrow> 'c sidebar_state
     \<Rightarrow> ('c, 'n, 'cb) sidebar_view" where
  "Sidebar lower items collapsed st =
     (let shown = filteredItems lower items (searchQuery st) in
      \<lparr>view_title = (\<not> collapsed),
       view_search = (if \<not> collapsed then Some (searchQuery st) else None),
       view_indicator =
         (if searchQuery st \<noteq> [] then Some (results_line (length shown) (searchQuery st)) else None),
       view_groups =
         map (\<lambda>c. (c, map (\<lambda>item. renderSidebarItem collapsed (expandedItems st) item 0)
                        (filter (\<lambda>item. category item = c) shown)))
           (categories items),
       view_empty = (length shown = 0)\<rparr>)"

subsection \<open>Reading a rendered panel\<close>

text \<open>
  The headings of the category blocks, the rows placed directly under them, and all rows of
  the tree, those of shown children included.
\<close>

definition headings :: "('c, 'n, 'cb) sidebar_view \<Rightarrow> 'c list option list" where
  "headings v = map fst (view_groups v)"

definition top_rows :: "('c, 'n, 'cb) sidebar_view \<Rightarrow> ('c, 'n, 'cb) row list" where
  "top_rows v = concat (map snd (view_groups v))"

definition rendered_rows :: "('c, 'n, 'cb) sidebar_view \<Rightarrow> ('c, 'n, 'cb) row list" where
  "rendered_rows v = concat (map all_rows (top_rows v))"

text \<open>The entries nested below an entry, at any depth.\<close>

fun descendants :: "('c, 'n, 'cb) SidebarItem \<Rightarrow> ('c, 'n, 'cb) SidebarItem list" where
  "descendants (SidebarItem i l ic b a oc ch cat) =
     (case ch of None \<Rightarrow> [] | Some cs \<Rightarrow> concat (map (\<lambda>child. child # descendants child) cs))"

subsection \<open>The scenarios\<close>

text \<open>
  The scenario of the specification: three entries, \<open>Button\<close> and \<open>Avatar\<close> in \<open>components\<close>
  and \<open>Hero\<close> in \<open>blocks\<close>, with no icon, badge, callback or children.
\<close>

definition entry :: "string \<Rightarrow> string \<Rightarrow> string option \<Rightarrow> (char, unit, unit) SidebarItem" where
  "entry i l cat = SidebarItem i l None None None None None cat"

definition scenario_items :: "(char, unit, unit) SidebarItem list" where
  "scenario_items =
     [entry ''a'' ''Button'' (Some ''components''),
      entry ''b'' ''Avatar'' (Some ''components''),
      entry ''c'' ''Hero'' (Some ''blocks'')]"

definition typed :: "string \<Rightarrow> char sidebar_state" where
  "typed q = search_onChange q initial_state"

text \<open>
  More collections: one with an entry that has no category; the group \<open>Docs\<close> with its child
  \<open>Report\<close>, filed under a category; the same group followed by its child as an entry of
  its own; and twelve cards in one category.
\<close>

definition loose_items :: "(char, unit, unit) SidebarItem list" where
  "loose_items = [entry ''u'' ''Docs'' None, entry ''c'' ''Hero'' (Some ''blocks'')]"

definition docs_group :: "(char, unit, unit) SidebarItem" where
  "docs_group =
     SidebarItem ''x'' ''Docs'' None None None None (Some [entry ''x1'' ''Report'' None]) (Some ''docs'')"

definition docs_items :: "(char, unit, unit) SidebarItem list" where
  "docs_items = [docs_group]"

definition nested_items :: "(char, unit, unit) SidebarItem list" where
  "nested_items = [docs_group, entry ''x1'' ''Report'' None]"

definition card_items :: "(char, unit, unit) SidebarItem list" where
  "card_items =
     map (\<lambda>k. entry (''card'' @ String_of_nat k) ''Card'' (Some ''cards''))
       [0, 1, 2, 3, 4, 5, 6, 7, 8, 9, 10, 11]"

text \<open>
  A collection over code units written as numbers, with a label outside ASCII: the French
  word for school, capitalised, begins with the code unit 201 (E with an acute accent),
  whose lower-case form is 233. On texts of Latin-1 letters
  the built-in adds 32 to the code units 65 to 90 and 192 to 222, without 215, the
  multiplication sign.
\<close>

definition latin_lower :: "nat list \<Rightarrow> nat list" where
  "latin_lower s =
     map (\<lambda>u. if (65 \<le> u \<and> u \<le> 90) \<or> (192 \<le> u \<and> u \<le> 222 \<and> u \<noteq> 215) then u + 32 else u) s"

definition ecole_items :: "(nat, unit, unit) SidebarItem list" where
  "ecole_items =
     [SidebarItem [101] [201, 99, 111, 108, 101] None None None None None None,
      SidebarItem [98] [66, 97, 114] None None None None None None]"

section \<open>Properties of the expand/collapse state\<close>

lemma expandedItems_toggleExpanded:
  "expandedItems (toggleExpanded i st) =
     (if i \<in> set (expandedItems st) then filter (\<lambda>item. item \<noteq> i) (expandedItems st)
      else expandedItems st @ [i])"
  by (simp add: toggleExpanded_def setExpandedItems_def)

lemma searchQuery_toggleExpanded: "searchQuery (toggleExpanded i st) = searchQuery st"
  by (simp add: toggleExpanded_def setExpandedItems_def)

lemma set_toggleExpanded:
  "set (expandedItems (toggleExpanded i st)) =
     (if i \<in> set (expandedItems st) then set (expandedItems st) - {i}
      else insert i (set (expandedItems st)))"
  by (auto simp: expandedItems_toggleExpanded)

lemma distinct_toggleExpanded:
  "distinct (expandedItems st) \<Longrightarrow> distinct (expandedItems (toggleExpanded i st))"
  by (simp add: expandedItems_toggleExpanded)

lemma distinct_toggle_all:
  "distinct (expandedItems st) \<Longrightarrow> distinct (expandedItems (toggle_all ids st))"
proof (induction ids arbitrary: st)
  case Nil
  then show ?case by (simp add: toggle_all_def)
next
  case (Cons i ids)
  have "distinct (expandedItems (toggleExpanded i st))"
    using Cons.prems by (rule distinct_toggleExpanded)
  then have "distinct (expandedItems (toggle_all ids (toggleExpanded i st)))"
    by (rule Cons.IH)
  then show ?case by (simp add: toggle_all_def)
qed

text \<open>
  Claim C4. Toggling the same id twice in succession gives back the expanded-set: the ids
  that are members of \<open>expandedItems\<close> are the same as before, whatever the state was.
  Membership is all the component reads of \<open>expandedItems\<close> (\<open>expandedItems.includes\<close>).
  The search text is the same as well, so as a set the state is restored.
\<close>

theorem toggleExpanded_involution:
  "set (expandedItems (toggleExpanded i (toggleExpanded i st))) = set (expandedItems st)
   \<and> searchQuery (toggleExpanded i (toggleExpanded i st)) = searchQuery st"
  by (auto simp: set_toggleExpanded searchQuery_toggleExpanded)

text \<open>
  Claim C8. From the initial, empty \<open>expandedItems\<close>, every sequence of \<open>toggleExpanded\<close> calls
  leaves \<open>expandedItems\<close> free of duplicates; a toggle of an absent id appends it once, at the
  end, and a toggle of a present id removes every occurrence of it.
\<close>

theorem toggleExpanded_no_duplicates:
  "distinct (expandedItems (toggle_all ids initial_state))
   \<and> (i \<notin> set (expandedItems st) \<longrightarrow>
        expandedItems (toggleExpanded i st) = expandedItems st @ [i]
        \<and> count_list (expandedItems (toggleExpanded i st)) i = 1)
   \<and> (i \<in> set (expandedItems st) \<longrightarrow>
        expandedItems (toggleExpanded i st) = filter (\<lambda>item. item \<noteq> i) (expandedItems st)
        \<and> i \<notin> set (expandedItems (toggleExpanded i st)))"
proof -
  have "distinct (expandedItems (initial_state :: 'a sidebar_state))"
    by (simp add: initial_state_def)
  then have "distinct (expandedItems (toggle_all ids (initial_state :: 'a sidebar_state)))"
    by (rule distinct_toggle_all)
  moreover have "i \<notin> set xs \<Longrightarrow> count_list (xs @ [i]) i = 1" for xs :: "'b list list"
    by (simp add: count_list_0_iff)
  ultimately show ?thesis
    by (simp add: expandedItems_toggleExpanded)
qed

text \<open>The claim at the toggles of \<open>x\<close>, \<open>y\<close>, \<open>x\<close> from the initial state.\<close>

theorem toggleExpanded_no_duplicates_witness:
  "distinct (expandedItems (toggle_all [''x'', ''y'', ''x'', ''z''] initial_state))
   \<and> ''y'' \<notin> set (expandedItems (toggleExpanded ''x'' initial_state))
   \<and> expandedItems (toggleExpanded ''y'' (toggleExpanded ''x'' initial_state)) = [''x'', ''y'']
   \<and> ''x'' \<in> set (expandedItems (toggleExpanded ''y'' (toggleExpanded ''x'' initial_state)))
   \<and> expandedItems (toggleExpanded ''x'' (toggleExpanded ''y'' (toggleExpanded ''x'' initial_state)))
       = [''y'']"
  using toggleExpanded_no_duplicates [of "[''x'', ''y'', ''x'', ''z'']" "''y''"
      "toggleExpanded ''x'' initial_state"]
    toggleExpanded_no_duplicates [of "[] :: string list" "''x''"
      "toggleExpanded ''y'' (toggleExpanded ''x'' initial_state)"]
  by (simp add: expandedItems_toggleExpanded initial_state_def)

text \<open>
  Claim C10. The two state cells are independent: \<open>toggleExpanded\<close> (and so a click on any
  item) leaves \<open>searchQuery\<close> as it was, and \<open>setSearchQuery\<close> (and so the search input's
  change handler) leaves \<open>expandedItems\<close> as it was and sets \<open>searchQuery\<close> to the new text.
\<close>

theorem state_cells_independent:
  "searchQuery (toggleExpanded i st) = searchQuery st
   \<and> searchQuery (fst (item_click item st)) = searchQuery st
   \<and> expandedItems (setSearchQuery text st) = expandedItems st
   \<and> searchQuery (setSearchQuery text st) = text
   \<and> expandedItems (search_onChange text st) = expandedItems st"
  by (simp add: searchQuery_toggleExpanded item_click_def setSearchQuery_def
      search_onChange_def split: option.split)

section \<open>Properties of filtering\<close>

lemma startsWith_iff: "startsWith s q \<longleftrightarrow> (\<exists>ss. s = q @ ss)"
  by (induction s q rule: startsWith.induct) auto

lemma str_includes_iff: "str_includes s q \<longleftrightarrow> (\<exists>ps ss. s = ps @ q @ ss)"
proof (induction s)
  case Nil
  then show ?case by auto
next
  case (Cons d s)
  show ?case
  proof
    assume "str_includes (d # s) q"
    then consider "startsWith (d # s) q" | "str_includes s q" by auto
    then show "\<exists>ps ss. d # s = ps @ q @ ss"
    proof cases
      case 1
      then obtain ss where "d # s = q @ ss" by (auto simp: startsWith_iff)
      then have "d # s = [] @ q @ ss" by simp
      then show ?thesis by blast
    next
      case 2
      then obtain ps ss where "s = ps @ q @ ss" using Cons.IH by blast
      then have "d # s = (d # ps) @ q @ ss" by simp
      then show ?thesis by blast
    qed
  next
    assume "\<exists>ps ss. d # s = ps @ q @ ss"
    then obtain ps ss where eq: "d # s = ps @ q @ ss" by blast
    show "str_includes (d # s) q"
    proof (cases ps)
      case Nil
      with eq have "startsWith (d # s) q" by (auto simp: startsWith_iff)
      then show ?thesis by simp
    next
      case (Cons p ps')
      with eq have "s = ps' @ q @ ss" by simp
      then have "str_includes s q" using Cons.IH by blast
      then show ?thesis by simp
    qed
  qed
qed

lemma str_includes_empty: "str_includes s []"
  by (induction s) auto

lemma includes_toLowerCase_iff:
  "str_includes (toLowerCase lower t) (toLowerCase lower q) \<longleftrightarrow> contains_ignoring_case lower t q"
  by (simp add: str_includes_iff contains_ignoring_case_def)

lemma matches_query_iff: "matches_query lower q item \<longleftrightarrow> spec_matches lower q item"
  by (auto simp: matches_query_def spec_matches_def includes_toLowerCase_iff split: option.splits)

lemma filteredItems_spec: "filteredItems lower items q = filter (spec_matches lower q) items"
  unfolding filteredItems_def by (rule filter_cong) (simp_all add: matches_query_iff)

lemma toLowerCase_map: "toLowerCase (map f) s = map f s"
  by (simp add: toLowerCase_def)

text \<open>
  When the lower-case form is taken character by character, a text contains \<open>q\<close> as a
  case-insensitive substring exactly when some stretch of it has the length of \<open>q\<close> and
  agrees with \<open>q\<close>, position by position, up to the case of the characters.
\<close>

lemma contains_ignoring_case_map:
  "contains_ignoring_case (map f) t q \<longleftrightarrow>
     (\<exists>before m after. t = before @ m @ after \<and> list_all2 (\<lambda>x y. f x = f y) m q)"
proof -
  have same: "list_all2 (\<lambda>x y. f x = f y) m q \<longleftrightarrow> map f m = map f q" for m
    by (induction m arbitrary: q) (auto simp: list_all2_Cons1)
  show ?thesis
  proof
    assume "contains_ignoring_case (map f) t q"
    then obtain ps ss where "map f t = ps @ (map f q @ ss)"
      by (auto simp: contains_ignoring_case_def toLowerCase_map)
    then have "\<exists>b r. t = b @ r \<and> ps = map f b \<and> map f q @ ss = map f r"
      by (simp only: map_eq_append_conv)
    then obtain b r where t: "t = b @ r" and r0: "map f r = map f q @ ss"
      by auto
    from r0 have "\<exists>m a. r = m @ a \<and> map f q = map f m \<and> ss = map f a"
      by (simp only: map_eq_append_conv)
    then obtain m a where r: "r = m @ a" and "map f m = map f q"
      by auto
    then have "list_all2 (\<lambda>x y. f x = f y) m q"
      by (simp add: same)
    with t r show "\<exists>before m after. t = before @ m @ after \<and> list_all2 (\<lambda>x y. f x = f y) m q"
      by blast
  next
    assume "\<exists>before m after. t = before @ m @ after \<and> list_all2 (\<lambda>x y. f x = f y) m q"
    then obtain b m a where t: "t = b @ m @ a" and "map f m = map f q"
      by (auto simp: same)
    then have "map f t = map f b @ map f q @ map f a"
      by simp
    then show "contains_ignoring_case (map f) t q"
      unfolding contains_ignoring_case_def toLowerCase_map by blast
  qed
qed

lemmas scenario_defs = scenario_items_def entry_def filteredItems_def matches_query_def
  toLowerCase_def ascii_lower_def ascii_lower_char_def typed_def search_onChange_def
  setSearchQuery_def initial_state_def

text \<open>
  Claim C3. For every entry collection and every query, whatever the lower-case forms of
  the platform are, \<open>filteredItems\<close> returns only entries of the collection whose label or
  category contains the query as a case-insensitive substring (in fact exactly those, in
  their order), and filtering the result again by the same query gives the same result.
  For a lower-case form taken character by character, such as the one of ASCII text, to
  contain the query in this sense is to have a stretch that agrees with the query up to
  the case of each character.
\<close>

theorem filteredItems_sound_idempotent:
  "(\<forall>e \<in> set (filteredItems lower items q). e \<in> set items \<and> spec_matches lower q e)
   \<and> filteredItems lower items q = filter (spec_matches lower q) items
   \<and> filteredItems lower (filteredItems lower items q) q = filteredItems lower items q
   \<and> (contains_ignoring_case (map f) t u \<longleftrightarrow>
        (\<exists>before m after. t = before @ m @ after \<and> list_all2 (\<lambda>x y. f x = f y) m u))"
  by (simp add: filteredItems_spec contains_ignoring_case_map)

text \<open>
  The claim at the scenario, filtered by \<open>he\<close>: only \<open>Hero\<close> is left, and it matches. And at
  a label outside ASCII: the query that begins with the code unit 233 keeps the entry whose
  label begins with the code unit 201, its capital, and not the entry \<open>Bar\<close>.
\<close>

theorem filteredItems_sound_idempotent_witness:
  "filteredItems ascii_lower scenario_items ''he'' = [entry ''c'' ''Hero'' (Some ''blocks'')]
   \<and> spec_matches ascii_lower ''he'' (entry ''c'' ''Hero'' (Some ''blocks''))
   \<and> filteredItems ascii_lower [entry ''c'' ''Hero'' (Some ''blocks'')] ''he''
       = [entry ''c'' ''Hero'' (Some ''blocks'')]
   \<and> filteredItems latin_lower ecole_items [233, 99, 111, 108, 101] = [hd ecole_items]
   \<and> spec_matches latin_lower [233, 99, 111, 108, 101] (hd ecole_items)"
proof -
  have f: "filteredItems ascii_lower scenario_items ''he'' = [entry ''c'' ''Hero'' (Some ''blocks'')]"
    by (simp add: scenario_defs)
  have g: "filteredItems latin_lower ecole_items [233, 99, 111, 108, 101] = [hd ecole_items]"
    by (simp add: ecole_items_def filteredItems_def matches_query_def toLowerCase_def latin_lower_def)
  note T = filteredItems_sound_idempotent [of ascii_lower scenario_items "''he''"]
  note U = filteredItems_sound_idempotent [of latin_lower ecole_items "[233, 99, 111, 108, 101]"]
  from T have "\<forall>e \<in> set (filteredItems ascii_lower scenario_items ''he''). spec_matches ascii_lower ''he'' e"
    by blast
  moreover from T have "filteredItems ascii_lower (filteredItems ascii_lower scenario_items ''he'') ''he''
      = filteredItems ascii_lower scenario_items ''he''"
    by blast
  moreover from U have "\<forall>e \<in> set (filteredItems latin_lower ecole_items [233, 99, 111, 108, 101]).
      spec_matches latin_lower [233, 99, 111, 108, 101] e"
    by blast
  ultimately show ?thesis
    by (simp add: f g)
qed

lemma filteredItems_no_query: "filteredItems lower items [] = items"
  by (simp add: filteredItems_def matches_query_def toLowerCase_def str_includes_empty)

text \<open>
  Claim C5. Filtering with the empty string returns exactly the entry collection, nothing
  excluded and in the original order; this holds for every collection, so in particular for
  those with unique ids, and it is the situation of the initial state.
\<close>

theorem filteredItems_empty_query:
  "filteredItems lower items [] = items
   \<and> filteredItems lower items (searchQuery initial_state) = items"
  by (simp add: filteredItems_no_query initial_state_def)

section \<open>Properties of the decimal text of a number\<close>

lemma digit_cases:
  "k < (10 :: nat) \<Longrightarrow>
     k = 0 \<or> k = 1 \<or> k = 2 \<or> k = 3 \<or> k = 4 \<or> k = 5 \<or> k = 6 \<or> k = 7 \<or> k = 8 \<or> k = 9"
  by presburger

lemma digit_value_digit: "k < 10 \<Longrightarrow> digit_value (digit k) = k"
  by (drule digit_cases) (auto simp: digit_def digit_value_def)

lemma digit_in_digits: "k < 10 \<Longrightarrow> digit k \<in> set ''0123456789''"
  by (drule digit_cases) (auto simp: digit_def)

lemma digit_zero_iff: "k < 10 \<Longrightarrow> digit k = CHR ''0'' \<longleftrightarrow> k = 0"
  by (drule digit_cases) (auto simp: digit_def)

lemma decimal_value_snoc: "decimal_value (s @ [c]) = 10 * decimal_value s + digit_value c"
  by (simp add: decimal_value_def)

lemma String_of_nat_not_Nil: "String_of_nat n \<noteq> []"
  by (subst String_of_nat.simps) simp

lemma decimal_value_String_of_nat: "decimal_value (String_of_nat n) = n"
proof (induction n rule: String_of_nat.induct)
  case (1 n)
  show ?case
  proof (cases "n < 10")
    case True
    then show ?thesis
      by (subst String_of_nat.simps) (simp add: decimal_value_def digit_value_digit)
  next
    case False
    with 1 have "decimal_value (String_of_nat (n div 10)) = n div 10"
      by simp
    with False show ?thesis
      by (subst String_of_nat.simps) (simp add: decimal_value_snoc digit_value_digit)
  qed
qed

lemma String_of_nat_digits: "set (String_of_nat n) \<subseteq> set ''0123456789''"
proof (induction n rule: String_of_nat.induct)
  case (1 n)
  show ?case
  proof (cases "n < 10")
    case True
    with digit_in_digits [of n] show ?thesis
      by (subst String_of_nat.simps) simp
  next
    case False
    with 1 have "set (String_of_nat (n div 10)) \<subseteq> set ''0123456789''"
      by simp
    moreover have "digit (n mod 10) \<in> set ''0123456789''"
      by (rule digit_in_digits) simp
    ultimately show ?thesis
      using False by (subst String_of_nat.simps) simp
  qed
qed

lemma String_of_nat_no_leading_zero: "0 < n \<Longrightarrow> hd (String_of_nat n) \<noteq> CHR ''0''"
proof (induction n rule: String_of_nat.induct)
  case (1 n)
  show ?case
  proof (cases "n < 10")
    case True
    with "1.prems" show ?thesis
      by (subst String_of_nat.simps) (simp add: digit_zero_iff)
  next
    case False
    then have "0 < n div 10"
      by simp
    with 1 False have "hd (String_of_nat (n div 10)) \<noteq> CHR ''0''"
      by simp
    with False show ?thesis
      by (subst String_of_nat.simps) (simp add: String_of_nat_not_Nil)
  qed
qed

section \<open>Properties of the rendered panel\<close>

lemma foldl_new_Set_set:
  "set (foldl (\<lambda>acc x. if x \<in> set acc then acc else acc @ [x]) acc xs) = set acc \<union> set xs"
  by (induction xs arbitrary: acc) auto

lemma foldl_new_Set_distinct:
  "distinct acc \<Longrightarrow> distinct (foldl (\<lambda>acc x. if x \<in> set acc then acc else acc @ [x]) acc xs)"
  by (induction xs arbitrary: acc) auto

lemma set_new_Set: "set (new_Set xs) = set xs"
  by (simp add: new_Set_def foldl_new_Set_set)

lemma distinct_new_Set: "distinct (new_Set xs)"
  by (simp add: new_Set_def foldl_new_Set_distinct)

lemma set_categories:
  "set (categories items) = {c. Boolean_string c \<and> c \<in> category ` set items}"
  by (auto simp: categories_def set_new_Set)

lemma Some_in_categories:
  "Some c \<in> set (categories items) \<longleftrightarrow> c \<noteq> [] \<and> (\<exists>item \<in> set items. category item = Some c)"
  by (force simp: set_categories Boolean_string_def image_iff)

lemma None_notin_categories: "None \<notin> set (categories items)"
  by (simp add: set_categories Boolean_string_def)

lemma distinct_categories: "distinct (categories items)"
  by (simp add: categories_def distinct_new_Set)

lemma row_item_render: "row_item (renderSidebarItem collapsed expanded item level) = item"
  by (cases item) simp

lemma row_icon_render:
  "row_icon (renderSidebarItem collapsed expanded item level) = icon_slot (icon item)"
  by (cases item) simp

lemma row_children_render:
  "map_option (map row_item) (row_children (renderSidebarItem collapsed expanded item level)) =
     (if \<not> collapsed \<and> item_id item \<in> set expanded then children item else None)"
  by (cases item) (simp add: comp_def row_item_render split: option.split)

lemma render_collapsed:
  "renderSidebarItem True expanded item level =
     Row (item_id item) item (active item = Some True) (level * 12 + 12) (icon_slot (icon item))
       None None None None"
  by (cases item) (simp split: option.split)

lemma all_rows_are_rendered:
  "r \<in> set (all_rows (renderSidebarItem collapsed expanded item level)) \<Longrightarrow>
     \<exists>item' level'. r = renderSidebarItem collapsed expanded item' level'"
proof (induction collapsed expanded item level rule: renderSidebarItem.induct)
  case (1 collapsed expanded i l ic b a oc ch cat level)
  show ?case
  proof (cases ch)
    case None
    with "1.prems" have "r = renderSidebarItem collapsed expanded (SidebarItem i l ic b a oc ch cat) level"
      by simp
    then show ?thesis by blast
  next
    case (Some cs)
    show ?thesis
    proof (cases "\<not> collapsed \<and> i \<in> set expanded")
      case False
      with Some "1.prems"
      have "r = renderSidebarItem collapsed expanded (SidebarItem i l ic b a oc ch cat) level"
        by auto
      then show ?thesis by blast
    next
      case True
      with Some "1.prems" consider
        "r = renderSidebarItem collapsed expanded (SidebarItem i l ic b a oc ch cat) level"
        | child where "child \<in> set cs"
          and "r \<in> set (all_rows (renderSidebarItem collapsed expanded child (level + 1)))"
        by auto
      then show ?thesis
      proof cases
        case 1
        then show ?thesis by blast
      next
        case 2
        then show ?thesis
          using "1.IH" [OF Some True] by blast
      qed
    qed
  qed
qed

lemma all_rows_render_items:
  "row_item ` set (all_rows (renderSidebarItem collapsed expanded item level))
     \<subseteq> insert item (set (descendants item))"
proof (induction collapsed expanded item level rule: renderSidebarItem.induct)
  case (1 collapsed expanded i l ic b a oc ch cat level)
  show ?case
  proof (cases ch)
    case None
    then show ?thesis by simp
  next
    case (Some cs)
    show ?thesis
    proof (cases "\<not> collapsed \<and> i \<in> set expanded")
      case False
      with Some show ?thesis by auto
    next
      case True
      have "row_item ` set (all_rows (renderSidebarItem collapsed expanded child (level + 1)))
          \<subseteq> insert child (set (descendants child))" if "child \<in> set cs" for child
        using "1.IH" [OF Some True that] .
      with Some True show ?thesis
        by (auto simp: image_subset_iff)
    qed
  qed
qed

lemma headings_Sidebar: "headings (Sidebar lower items collapsed st) = categories items"
  by (simp add: headings_def Sidebar_def Let_def comp_def)

lemma view_groups_Sidebar:
  "view_groups (Sidebar lower items collapsed st) =
     map (\<lambda>c. (c, map (\<lambda>item. renderSidebarItem collapsed (expandedItems st) item 0)
                    (filter (\<lambda>item. category item = c) (filteredItems lower items (searchQuery st)))))
       (categories items)"
  by (simp add: Sidebar_def Let_def)

lemma view_indicator_Sidebar:
  "view_indicator (Sidebar lower items collapsed st) =
     (if searchQuery st \<noteq> []
      then Some (results_line (length (filteredItems lower items (searchQuery st))) (searchQuery st))
      else None)"
  by (simp add: Sidebar_def Let_def)

lemma top_rows_Sidebar:
  "r \<in> set (top_rows (Sidebar lower items collapsed st)) \<longleftrightarrow>
     (\<exists>c \<in> set (categories items). \<exists>item \<in> set (filteredItems lower items (searchQuery st)).
        category item = c \<and> r = renderSidebarItem collapsed (expandedItems st) item 0)"
  by (auto simp: top_rows_def view_groups_Sidebar)

lemma rendered_rows_are_rendered:
  assumes "r \<in> set (rendered_rows (Sidebar lower items collapsed st))"
  shows "\<exists>item level. r = renderSidebarItem collapsed (expandedItems st) item level"
proof -
  from assms obtain t where "t \<in> set (top_rows (Sidebar lower items collapsed st))"
    and r: "r \<in> set (all_rows t)"
    by (auto simp: rendered_rows_def)
  then obtain item where "t = renderSidebarItem collapsed (expandedItems st) item 0"
    by (auto simp: top_rows_Sidebar)
  with r show ?thesis
    using all_rows_are_rendered by blast
qed

lemma top_rows_items:
  "map row_item (top_rows (Sidebar lower items collapsed st)) =
     concat (map (\<lambda>c. filter (\<lambda>item. category item = c) (filteredItems lower items (searchQuery st)))
       (categories items))"
  by (simp add: top_rows_def view_groups_Sidebar map_concat comp_def row_item_render)

lemma top_rows_icons:
  "map row_icon (top_rows (Sidebar lower items collapsed st)) =
     concat (map (\<lambda>c. map (\<lambda>item. icon_slot (icon item))
         (filter (\<lambda>item. category item = c) (filteredItems lower items (searchQuery st))))
       (categories items))"
  by (simp add: top_rows_def view_groups_Sidebar map_concat comp_def row_icon_render)

lemma searchQuery_typed: "searchQuery (typed q) = q"
  by (simp add: typed_def search_onChange_def setSearchQuery_def initial_state_def)

lemma expandedItems_typed: "expandedItems (typed q) = []"
  by (simp add: typed_def search_onChange_def setSearchQuery_def initial_state_def)

lemma scenario_he:
  "filteredItems ascii_lower scenario_items ''he'' = [entry ''c'' ''Hero'' (Some ''blocks'')]"
  by (simp add: scenario_defs)

lemma scenario_categories: "categories scenario_items = [Some ''components'', Some ''blocks'']"
  by (simp add: scenario_items_def entry_def categories_def new_Set_def Boolean_string_def)

lemma scenario_view_groups:
  "view_groups (Sidebar ascii_lower scenario_items False (typed ''he'')) =
     [(Some ''components'', []),
      (Some ''blocks'',
       [Row ''c'' (entry ''c'' ''Hero'' (Some ''blocks'')) False 12 None (Some ''Hero'') None None None])]"
  by (simp add: view_groups_Sidebar scenario_he scenario_categories searchQuery_typed
      expandedItems_typed) (simp add: entry_def)

lemma docs_categories: "categories docs_items = [Some ''docs'']"
  by (simp add: docs_items_def docs_group_def categories_def new_Set_def Boolean_string_def)

lemma docs_open_state:
  "searchQuery (toggleExpanded ''x'' initial_state) = []"
  "expandedItems (toggleExpanded ''x'' initial_state) = [''x'']"
  by (simp_all add: toggleExpanded_def setExpandedItems_def initial_state_def)

lemma docs_open_typed:
  "searchQuery (toggleExpanded ''x'' (typed q)) = q"
  "expandedItems (toggleExpanded ''x'' (typed q)) = [''x'']"
  by (simp_all add: toggleExpanded_def setExpandedItems_def typed_def search_onChange_def
      setSearchQuery_def initial_state_def)

lemma docs_doc: "filteredItems ascii_lower docs_items ''doc'' = docs_items"
  by (simp add: docs_items_def docs_group_def filteredItems_def matches_query_def toLowerCase_def
      ascii_lower_def ascii_lower_char_def)

lemma report_doc: "\<not> matches_query ascii_lower ''doc'' (entry ''x1'' ''Report'' None)"
  by (simp add: entry_def matches_query_def toLowerCase_def ascii_lower_def ascii_lower_char_def)

lemma docs_rendered_rows:
  "map row_item (rendered_rows (Sidebar ascii_lower docs_items False (toggleExpanded ''x'' (typed ''doc''))))
     = [docs_group, entry ''x1'' ''Report'' None]"
  by (simp add: rendered_rows_def top_rows_def view_groups_Sidebar docs_categories docs_open_typed
      docs_doc) (simp add: docs_items_def docs_group_def entry_def)

lemma card_count: "length (filteredItems ascii_lower card_items ''car'') = 12"
  by (simp add: card_items_def entry_def filteredItems_def matches_query_def toLowerCase_def
      ascii_lower_def ascii_lower_char_def)

lemma String_of_nat_12: "String_of_nat 12 = ''12''"
  by (simp add: String_of_nat.simps digit_def)

lemma String_of_nat_1: "String_of_nat (Suc 0) = ''1''"
  by (simp add: String_of_nat.simps digit_def)

text \<open>
  Claim C6. The results line is rendered if and only if the search text is non-empty, and
  then its children are the number of entries of \<open>filteredItems\<close>, which counts the entries
  left by the filter whatever their category, the text \<open>results for\<close> with the opening
  quote, the search text and the closing quote. Read as one text this is the decimal text
  of the number followed by the rest; the decimal text of a number is made of digits, has
  no leading zero, and denotes that number. With \<open>he\<close> typed over the three entries of the
  scenario the line reads \<open>1 results for "he"\<close>, in either display mode.
\<close>

theorem indicator_iff_query:
  \<open>(view_indicator (Sidebar lower items collapsed st) \<noteq> None \<longleftrightarrow> searchQuery st \<noteq> [])
   \<and> (searchQuery st \<noteq> [] \<longrightarrow>
        view_indicator (Sidebar lower items collapsed st) =
          Some [Number (length (filteredItems lower items (searchQuery st))),
                Literal '' results for "'', Chars (searchQuery st), Literal ''"''])
   \<and> textContent [Number n, Literal '' results for "'', Chars q, Literal ''"'']
       = String_of_nat n @ '' results for "'' @ q @ ''"''
   \<and> decimal_value (String_of_nat n) = n
   \<and> String_of_nat n \<noteq> []
   \<and> set (String_of_nat n) \<subseteq> set ''0123456789''
   \<and> (0 < n \<longrightarrow> hd (String_of_nat n) \<noteq> CHR ''0'')
   \<and> map_option textContent
        (view_indicator (Sidebar ascii_lower scenario_items collapsed (typed ''he'')))
       = Some ''1 results for "he"''\<close>
proof -
  have "map_option textContent
        (view_indicator (Sidebar ascii_lower scenario_items collapsed (typed ''he'')))
       = Some ''1 results for \"he\"''"
    by (simp add: view_indicator_Sidebar searchQuery_typed scenario_he results_line_def
        textContent_def String_of_nat_1)
  moreover have "set (String_of_nat n) \<subseteq> set ''0123456789''"
    by (rule String_of_nat_digits)
  moreover have "0 < n \<longrightarrow> hd (String_of_nat n) \<noteq> CHR ''0''"
    by (simp add: String_of_nat_no_leading_zero)
  ultimately show ?thesis
    by (simp add: view_indicator_Sidebar results_line_def textContent_def
        decimal_value_String_of_nat String_of_nat_not_Nil)
qed

text \<open>
  The claim at twelve cards that all match the search text \<open>car\<close>, in the collapsed mode,
  and at the initial state, where no results line is rendered.
\<close>

theorem indicator_iff_query_witness:
  \<open>searchQuery (typed ''car'') \<noteq> []
   \<and> view_indicator (Sidebar ascii_lower card_items True (typed ''car''))
       = Some [Number 12, Literal '' results for "'', Chars ''car'', Literal ''"'']
   \<and> textContent [Number 12, Literal '' results for "'', Chars ''car'', Literal ''"'']
       = ''12 results for "car"''
   \<and> decimal_value ''12'' = 12
   \<and> view_indicator (Sidebar ascii_lower scenario_items False initial_state) = None\<close>
proof -
  note T = indicator_iff_query [of ascii_lower card_items True "typed ''car''" 12 "''car''"]
  note U = indicator_iff_query [of ascii_lower scenario_items False initial_state]
  have q: "searchQuery (typed ''car'') \<noteq> []"
    by (simp add: searchQuery_typed)
  from T q have 1: "view_indicator (Sidebar ascii_lower card_items True (typed ''car''))
       = Some [Number 12, Literal '' results for \"'', Chars ''car'', Literal ''\"'']"
    by (simp add: searchQuery_typed card_count)
  from T have 2: "textContent [Number 12, Literal '' results for \"'', Chars ''car'', Literal ''\"'']
       = ''12 results for \"car\"''"
    by (simp add: String_of_nat_12)
  from T have 3: "decimal_value ''12'' = 12"
    by (simp add: String_of_nat_12)
  have "searchQuery (initial_state :: char sidebar_state) = []"
    by (simp add: initial_state_def)
  with U have 4: "view_indicator (Sidebar ascii_lower scenario_items False initial_state) = None"
    by simp
  from q 1 2 3 4 show ?thesis
    by blast
qed

text \<open>
  Claim C1 says that the heading of a category without a matching entry is not rendered, so
  that with \<open>he\<close> typed over the scenario the heading \<open>components\<close> is absent, and that the
  rendered tree excludes every entry failing the match. The component takes its category
  list from \<open>items\<close>, not from \<open>filteredItems\<close>: only \<open>Hero\<close> passes the filter, and both
  headings are rendered. And the filter is applied to the entries of the collection, not
  to their children: with \<open>doc\<close> typed and \<open>Docs\<close> expanded, the row of its child \<open>Report\<close> is
  rendered, though \<open>Report\<close> fails the match.
\<close>

theorem headings_ignore_filter_counterexample:
  "filteredItems ascii_lower scenario_items ''he'' = [entry ''c'' ''Hero'' (Some ''blocks'')]
   \<and> headings (Sidebar ascii_lower scenario_items False (typed ''he''))
       = [Some ''components'', Some ''blocks'']
   \<and> \<not> matches_query ascii_lower ''doc'' (entry ''x1'' ''Report'' None)
   \<and> map row_item
        (rendered_rows (Sidebar ascii_lower docs_items False (toggleExpanded ''x'' (typed ''doc''))))
       = [docs_group, entry ''x1'' ''Report'' None]"
  by (simp add: scenario_he headings_Sidebar scenario_categories report_doc docs_rendered_rows)

text \<open>
  Claim C1, as amended. For every entry collection, every search text and either display
  mode, the rows directly under a category heading are exactly the entries of that
  category that pass the filter, in their order, so every such row belongs to an entry of
  the collection whose label or category contains the search text as a case-insensitive
  substring. Below any row of the tree, the rows of children are those of all the children
  of the row's entry, matching or not, when the panel is not collapsed and the entry's id
  is expanded, and there are none otherwise. A heading is rendered if and only if some
  entry of the whole collection, matching or not, has that category and the category is
  not the empty string; no heading is rendered twice. With \<open>he\<close> typed over the scenario
  the heading \<open>components\<close> is rendered with no rows and the heading \<open>blocks\<close> with the one
  row of \<open>Hero\<close>.
\<close>

theorem groups_show_matching_entries:
  "(\<forall>(c, rows) \<in> set (view_groups (Sidebar lower items collapsed st)).
      map row_item rows
        = filter (\<lambda>item. category item = c) (filteredItems lower items (searchQuery st))
      \<and> (\<forall>r \<in> set rows. row_item r \<in> set items \<and> spec_matches lower (searchQuery st) (row_item r)))
   \<and> (\<forall>r \<in> set (rendered_rows (Sidebar lower items collapsed st)).
        map_option (map row_item) (row_children r)
          = (if \<not> collapsed \<and> item_id (row_item r) \<in> set (expandedItems st)
             then children (row_item r) else None))
   \<and> (Some c \<in> set (headings (Sidebar lower items collapsed st))
        \<longleftrightarrow> c \<noteq> [] \<and> (\<exists>item \<in> set items. category item = Some c))
   \<and> distinct (headings (Sidebar lower items collapsed st))
   \<and> view_groups (Sidebar ascii_lower scenario_items False (typed ''he'')) =
       [(Some ''components'', []),
        (Some ''blocks'',
         [Row ''c'' (entry ''c'' ''Hero'' (Some ''blocks'')) False 12 None (Some ''Hero'') None None None])]"
proof -
  have 1: "\<forall>(c, rows) \<in> set (view_groups (Sidebar lower items collapsed st)).
      map row_item rows
        = filter (\<lambda>item. category item = c) (filteredItems lower items (searchQuery st))
      \<and> (\<forall>r \<in> set rows. row_item r \<in> set items \<and> spec_matches lower (searchQuery st) (row_item r))"
    by (auto simp: view_groups_Sidebar comp_def row_item_render filteredItems_spec)
  have 2: "\<forall>r \<in> set (rendered_rows (Sidebar lower items collapsed st)).
        map_option (map row_item) (row_children r)
          = (if \<not> collapsed \<and> item_id (row_item r) \<in> set (expandedItems st)
             then children (row_item r) else None)"
  proof
    fix r
    assume "r \<in> set (rendered_rows (Sidebar lower items collapsed st))"
    then obtain item level where "r = renderSidebarItem collapsed (expandedItems st) item level"
      using rendered_rows_are_rendered by blast
    then show "map_option (map row_item) (row_children r)
          = (if \<not> collapsed \<and> item_id (row_item r) \<in> set (expandedItems st)
             then children (row_item r) else None)"
      by (simp only: row_children_render row_item_render)
  qed
  have 3: "Some c \<in> set (headings (Sidebar lower items collapsed st))
        \<longleftrightarrow> c \<noteq> [] \<and> (\<exists>item \<in> set items. category item = Some c)"
    by (simp add: headings_Sidebar Some_in_categories)
  have 4: "distinct (headings (Sidebar lower items collapsed st))"
    by (simp add: headings_Sidebar distinct_categories)
  from 1 2 3 4 scenario_view_groups show ?thesis
    by blast
qed

text \<open>
  The amended claim at the scenario: the block of \<open>blocks\<close> holds the row of \<open>Hero\<close>, which
  matches \<open>he\<close>; the heading \<open>components\<close> is rendered, a heading \<open>widgets\<close> is not. And at
  \<open>Docs\<close>, expanded, with \<open>doc\<close> typed: below its row are the rows of its children.
\<close>

theorem groups_show_matching_entries_witness:
  "(Some ''blocks'',
      [Row ''c'' (entry ''c'' ''Hero'' (Some ''blocks'')) False 12 None (Some ''Hero'') None None None])
     \<in> set (view_groups (Sidebar ascii_lower scenario_items False (typed ''he'')))
   \<and> spec_matches ascii_lower ''he'' (entry ''c'' ''Hero'' (Some ''blocks''))
   \<and> Some ''components'' \<in> set (headings (Sidebar ascii_lower scenario_items False (typed ''he'')))
   \<and> Some ''widgets'' \<notin> set (headings (Sidebar ascii_lower scenario_items False (typed ''he'')))
   \<and> map_option (map row_item)
        (row_children (renderSidebarItem False [''x''] docs_group 0))
       = Some [entry ''x1'' ''Report'' None]"
proof -
  have c: "category (entry i l cat) = cat" for i l cat
    by (simp add: entry_def)
  have a: "(Some ''blocks'',
      [Row ''c'' (entry ''c'' ''Hero'' (Some ''blocks'')) False 12 None (Some ''Hero'') None None None])
     \<in> set (view_groups (Sidebar ascii_lower scenario_items False (typed ''he'')))
   \<and> spec_matches ascii_lower ''he'' (entry ''c'' ''Hero'' (Some ''blocks''))
   \<and> Some ''components'' \<in> set (headings (Sidebar ascii_lower scenario_items False (typed ''he'')))
   \<and> Some ''widgets'' \<notin> set (headings (Sidebar ascii_lower scenario_items False (typed ''he'')))"
    using groups_show_matching_entries [of ascii_lower scenario_items False "typed ''he''" "''components''"]
      groups_show_matching_entries [of ascii_lower scenario_items False "typed ''he''" "''widgets''"]
    by (simp add: scenario_view_groups searchQuery_typed) (simp add: scenario_items_def c)
  let ?st = "toggleExpanded ''x'' (typed ''doc'')"
  let ?r = "renderSidebarItem False [''x''] docs_group 0"
  have "top_rows (Sidebar ascii_lower docs_items False ?st) = [?r]"
    by (simp add: top_rows_def view_groups_Sidebar docs_categories docs_open_typed docs_doc)
      (simp add: docs_items_def docs_group_def)
  then have "?r \<in> set (rendered_rows (Sidebar ascii_lower docs_items False ?st))"
    by (simp add: rendered_rows_def docs_group_def)
  with groups_show_matching_entries [of ascii_lower docs_items False ?st]
  have "map_option (map row_item) (row_children ?r)
      = (if \<not> False \<and> item_id (row_item ?r) \<in> set (expandedItems ?st)
         then children (row_item ?r) else None)"
    by blast
  then have "map_option (map row_item) (row_children ?r) = Some [entry ''x1'' ''Report'' None]"
    by (simp add: row_item_render docs_open_typed) (simp add: docs_group_def)
  with a show ?thesis
    by blast
qed

text \<open>
  Claim C2 says that an entry whose children sequence is empty is a leaf: a click invokes
  its callback and leaves the expanded-set alone. The handler tests \<open>item.children\<close>, and
  an empty array passes that test: the click on such an entry puts its id in
  \<open>expandedItems\<close> and invokes nothing.
\<close>

theorem click_empty_children_counterexample:
  "item_click
     (SidebarItem ''x'' ''Docs'' None None None (Some ()) (Some []) None :: (char, unit, unit) SidebarItem)
     initial_state
     = (\<lparr>expandedItems = [''x''], searchQuery = []\<rparr>, [])"
  by (simp add: item_click_def toggleExpanded_def setExpandedItems_def initial_state_def)

text \<open>
  Claim C2, as amended. A click on an entry's row changes the membership of that entry's id
  in \<open>expandedItems\<close> if and only if the entry's \<open>children\<close> field is defined, an empty
  sequence included; it is then \<open>toggleExpanded\<close> of the id, and no callback is invoked.
  When the field is undefined the state is left as it is, and the callbacks invoked are the
  entry's own \<open>onClick\<close>, once, if it has one, and none otherwise.
\<close>

theorem click_toggles_iff_children_defined:
  "item_click item st =
     (if children item \<noteq> None then (toggleExpanded (item_id item) st, [])
      else (st, case onClick item of Some cb \<Rightarrow> [cb] | None \<Rightarrow> []))
   \<and> ((item_id item \<in> set (expandedItems (fst (item_click item st))))
          \<noteq> (item_id item \<in> set (expandedItems st))
        \<longleftrightarrow> children item \<noteq> None)
   \<and> (children item \<noteq> None \<longrightarrow> snd (item_click item st) = [])
   \<and> (children item = None \<longrightarrow>
        fst (item_click item st) = st \<and> set (snd (item_click item st)) = set_option (onClick item))"
  by (auto simp: item_click_def set_toggleExpanded split: option.splits)

text \<open>
  The amended claim at the group \<open>Docs\<close>, whose id a click expands, and at a leaf with a
  callback, which a click invokes.
\<close>

theorem click_toggles_iff_children_defined_witness:
  "item_click (SidebarItem ''x'' ''Docs'' None None None (Some ()) (Some [entry ''x1'' ''Report'' None]) None)
      initial_state = (toggleExpanded ''x'' initial_state, [])
   \<and> ''x'' \<in> set (expandedItems (fst (item_click
        (SidebarItem ''x'' ''Docs'' None None None (Some ()) (Some [entry ''x1'' ''Report'' None]) None)
        initial_state)))
   \<and> item_click
        (SidebarItem ''y'' ''Leaf'' None None None (Some ()) None None :: (char, unit, unit) SidebarItem)
        (toggleExpanded ''x'' initial_state) = (toggleExpanded ''x'' initial_state, [()])"
proof -
  let ?X = "SidebarItem ''x'' ''Docs'' None None None (Some ()) (Some [entry ''x1'' ''Report'' None]) None"
  let ?Y = "SidebarItem ''y'' ''Leaf'' None None None (Some ()) None None
              :: (char, unit, unit) SidebarItem"
  let ?S = "toggleExpanded ''x'' initial_state"
  have x: "children ?X \<noteq> None" and i: "item_id ?X = ''x''"
    by simp_all
  have y: "children ?Y = None" and c: "onClick ?Y = Some ()"
    by simp_all
  have e: "''x'' \<notin> set (expandedItems (initial_state :: char sidebar_state))"
    by (simp add: initial_state_def)
  note X = click_toggles_iff_children_defined [of ?X initial_state]
  note Y = click_toggles_iff_children_defined [of ?Y ?S]
  from X x i have 1: "item_click ?X initial_state = (?S, [])"
    by simp
  from X e have 2: "''x'' \<in> set (expandedItems (fst (item_click ?X initial_state)))"
    by auto
  from Y y c have 3: "item_click ?Y ?S = (?S, [()])"
    by simp
  from 1 2 3 show ?thesis
    by blast
qed

text \<open>
  Claim C7 says that the collapsed mode suppresses the category headings and keeps every
  entry available. The headings are rendered without a look at \<open>collapsed\<close>: the collapsed
  scenario shows both. And the children of an expanded entry are rendered only when the
  panel is not collapsed: with \<open>Docs\<close> expanded, the row of \<open>Report\<close> is in the expanded
  panel and not in the collapsed one.
\<close>

theorem collapsed_keeps_headings_counterexample:
  "headings (Sidebar ascii_lower scenario_items True initial_state)
     = [Some ''components'', Some ''blocks'']
   \<and> map row_key (rendered_rows (Sidebar ascii_lower docs_items False (toggleExpanded ''x'' initial_state)))
       = [''x'', ''x1'']
   \<and> map row_key (rendered_rows (Sidebar ascii_lower docs_items True (toggleExpanded ''x'' initial_state)))
       = [''x'']"
  by (simp add: headings_Sidebar scenario_categories rendered_rows_def top_rows_def
      view_groups_Sidebar docs_categories docs_open_state filteredItems_no_query)
    (simp add: docs_items_def docs_group_def entry_def)

text \<open>
  Claim C7, as amended. For every entry collection and state, in the collapsed mode no row
  directly under a heading has a label, a badge, an expand arrow or rows of children below
  it; the category headings are the ones of the expanded mode; and under each heading the
  rows are those of the same entries, in the same order, with the same click targets and
  icons as in the expanded mode.
\<close>

theorem collapsed_hides_labels_keeps_targets:
  "(\<forall>r \<in> set (top_rows (Sidebar lower items True st)).
      row_label r = None \<and> row_badge r = None \<and> row_indicator r = None \<and> row_children r = None)
   \<and> headings (Sidebar lower items True st) = headings (Sidebar lower items False st)
   \<and> map (\<lambda>(c, rows). (c, map row_item rows)) (view_groups (Sidebar lower items True st))
      = map (\<lambda>(c, rows). (c, map row_item rows)) (view_groups (Sidebar lower items False st))
   \<and> map row_item (top_rows (Sidebar lower items True st))
      = map row_item (top_rows (Sidebar lower items False st))
   \<and> map row_icon (top_rows (Sidebar lower items True st))
      = map row_icon (top_rows (Sidebar lower items False st))"
proof -
  have "\<forall>r \<in> set (top_rows (Sidebar lower items True st)).
      row_label r = None \<and> row_badge r = None \<and> row_indicator r = None \<and> row_children r = None"
    by (auto simp: top_rows_Sidebar render_collapsed)
  then show ?thesis
    by (simp add: headings_Sidebar view_groups_Sidebar comp_def row_item_render
        top_rows_items top_rows_icons)
qed

text \<open>
  The amended claim at \<open>Docs\<close>, expanded: the collapsed panel has the bare row of \<open>Docs\<close>,
  and the expanded panel has the same entry under the same heading.
\<close>

theorem collapsed_hides_labels_keeps_targets_witness:
  "top_rows (Sidebar ascii_lower docs_items True (toggleExpanded ''x'' initial_state))
     = [Row ''x'' docs_group False 12 None None None None None]
   \<and> map row_item (top_rows (Sidebar ascii_lower docs_items False (toggleExpanded ''x'' initial_state)))
     = docs_items
   \<and> headings (Sidebar ascii_lower docs_items False (toggleExpanded ''x'' initial_state))
     = [Some ''docs'']"
proof -
  let ?st = "toggleExpanded ''x'' initial_state :: char sidebar_state"
  have t: "top_rows (Sidebar ascii_lower docs_items True ?st)
     = [Row ''x'' docs_group False 12 None None None None None]"
    by (simp add: top_rows_def view_groups_Sidebar docs_categories docs_open_state
        filteredItems_no_query render_collapsed) (simp add: docs_items_def docs_group_def)
  have h: "headings (Sidebar ascii_lower docs_items True ?st) = [Some ''docs'']"
    by (simp add: headings_Sidebar docs_categories)
  note T = collapsed_hides_labels_keeps_targets [of ascii_lower docs_items ?st]
  from T have "map row_item (top_rows (Sidebar ascii_lower docs_items False ?st))
      = map row_item (top_rows (Sidebar ascii_lower docs_items True ?st))"
    by simp
  also have "\<dots> = docs_items"
    unfolding t by (simp add: docs_items_def)
  finally have i: "map row_item (top_rows (Sidebar ascii_lower docs_items False ?st)) = docs_items" .
  from T h have "headings (Sidebar ascii_lower docs_items False ?st) = [Some ''docs'']"
    by simp
  with t i show ?thesis
    by blast
qed

lemma count_list_filter: "count_list (filter P xs) e = (if P e then count_list xs e else 0)"
  by (induction xs) auto

lemma nested_categories: "categories nested_items = [Some ''docs'']"
  by (simp add: nested_items_def docs_group_def entry_def categories_def new_Set_def
      Boolean_string_def)

text \<open>
  Claim C9 says that a top-level entry without a category is never rendered as a row in the
  tree. It is the entry of no row directly under a heading; but a collection may hold the
  same entry a second time, as a child of an entry that has a category, and the rows of
  children are rendered whatever their category is. Here \<open>Report\<close> is an entry of the
  collection, without a category, and also the child of \<open>Docs\<close>: with \<open>Docs\<close> expanded it
  is the entry of the second row of the tree.
\<close>

theorem uncategorised_entry_nested_counterexample:
  "nested_items = [docs_group, entry ''x1'' ''Report'' None]
   \<and> category (entry ''x1'' ''Report'' None) = None
   \<and> map row_item
        (rendered_rows (Sidebar ascii_lower nested_items False (toggleExpanded ''x'' initial_state)))
       = [docs_group, entry ''x1'' ''Report'' None]"
  by (simp add: nested_items_def rendered_rows_def top_rows_def view_groups_Sidebar
      nested_categories [unfolded nested_items_def] docs_open_state filteredItems_no_query)
    (simp add: docs_group_def entry_def)

text \<open>
  Claim C9, as amended. An entry whose \<open>category\<close> is undefined is the entry of no row
  directly under a heading, and \<open>undefined\<close> is no heading; when the entry is nested below no
  entry of the collection (as unique ids across the collection ensure for a top-level
  entry), it is the entry of no row of the tree at all. All the same, when its label
  contains the search text as a case-insensitive substring, the filter keeps every
  occurrence of it, so it is in \<open>filteredItems\<close>, and the number that the results line shows
  is the length of \<open>filteredItems\<close>.
\<close>

theorem uncategorised_entry_not_rendered:
  assumes "category e = None"
  shows \<open>e \<notin> row_item ` set (top_rows (Sidebar lower items collapsed st))
     \<and> None \<notin> set (headings (Sidebar lower items collapsed st))
     \<and> ((\<forall>item \<in> set items. e \<notin> set (descendants item)) \<longrightarrow>
          e \<notin> row_item ` set (rendered_rows (Sidebar lower items collapsed st)))
     \<and> (contains_ignoring_case lower (label e) (searchQuery st) \<longrightarrow>
          count_list (filteredItems lower items (searchQuery st)) e = count_list items e
          \<and> (e \<in> set items \<longrightarrow> e \<in> set (filteredItems lower items (searchQuery st))))
     \<and> (searchQuery st \<noteq> [] \<longrightarrow>
          view_indicator (Sidebar lower items collapsed st) =
            Some [Number (length (filteredItems lower items (searchQuery st))),
                  Literal '' results for "'', Chars (searchQuery st), Literal ''"''])\<close>
proof -
  have top: "category (row_item r) \<noteq> None \<and> row_item r \<in> set items"
    if "r \<in> set (top_rows (Sidebar lower items collapsed st))" for r
  proof -
    from that obtain item where "category item \<in> set (categories items)" and "item \<in> set items"
      and "r = renderSidebarItem collapsed (expandedItems st) item 0"
      by (auto simp: top_rows_Sidebar filteredItems_def)
    moreover from this have "category item \<noteq> None"
      using None_notin_categories [of items] by metis
    ultimately show ?thesis
      by (simp add: row_item_render)
  qed
  have 1: "e \<notin> row_item ` set (top_rows (Sidebar lower items collapsed st))"
  proof
    assume "e \<in> row_item ` set (top_rows (Sidebar lower items collapsed st))"
    then obtain r where "r \<in> set (top_rows (Sidebar lower items collapsed st))" and "e = row_item r"
      by blast
    with top [of r] assms show False
      by simp
  qed
  have 2: "None \<notin> set (headings (Sidebar lower items collapsed st))"
    by (simp add: headings_Sidebar None_notin_categories)
  have 3: "e \<notin> row_item ` set (rendered_rows (Sidebar lower items collapsed st))"
    if nd: "\<forall>item \<in> set items. e \<notin> set (descendants item)"
  proof
    assume "e \<in> row_item ` set (rendered_rows (Sidebar lower items collapsed st))"
    then obtain r where r: "r \<in> set (top_rows (Sidebar lower items collapsed st))"
      and e: "e \<in> row_item ` set (all_rows r)"
      by (auto simp: rendered_rows_def)
    from r obtain item where r_def: "r = renderSidebarItem collapsed (expandedItems st) item 0"
      by (auto simp: top_rows_Sidebar)
    with top [OF r] have item: "category item \<noteq> None" "item \<in> set items"
      by (simp_all add: row_item_render)
    from e r_def all_rows_render_items have "e = item \<or> e \<in> set (descendants item)"
      by blast
    with item nd assms show False
      by auto
  qed
  have 4: "spec_matches lower (searchQuery st) e"
    if "contains_ignoring_case lower (label e) (searchQuery st)"
    using that by (simp add: spec_matches_def)
  show ?thesis
    using 1 2 3 4
    by (auto simp: filteredItems_spec count_list_filter view_indicator_Sidebar results_line_def)
qed

lemma loose_doc: "filteredItems ascii_lower loose_items ''doc'' = [entry ''u'' ''Docs'' None]"
  by (simp add: loose_items_def scenario_defs)

lemma loose_categories: "categories loose_items = [Some ''blocks'']"
  by (simp add: loose_items_def entry_def categories_def new_Set_def Boolean_string_def)

text \<open>
  The amended claim at the entry \<open>Docs\<close> without a category, with \<open>doc\<close> typed: it is the one
  result counted, and no row is rendered.
\<close>

theorem uncategorised_entry_not_rendered_witness:
  \<open>category (entry ''u'' ''Docs'' None) = None
   \<and> filteredItems ascii_lower loose_items ''doc'' = [entry ''u'' ''Docs'' None]
   \<and> entry ''u'' ''Docs'' None
       \<notin> row_item ` set (rendered_rows (Sidebar ascii_lower loose_items False (typed ''doc'')))
   \<and> view_groups (Sidebar ascii_lower loose_items False (typed ''doc'')) = [(Some ''blocks'', [])]
   \<and> view_indicator (Sidebar ascii_lower loose_items False (typed ''doc''))
       = Some [Number 1, Literal '' results for "'', Chars ''doc'', Literal ''"'']\<close>
proof -
  have c: "category (entry ''u'' ''Docs'' None) = None"
    by (simp add: entry_def)
  have d: "\<forall>item \<in> set loose_items. entry ''u'' ''Docs'' None \<notin> set (descendants item)"
    by (simp add: loose_items_def entry_def)
  have g: "view_groups (Sidebar ascii_lower loose_items False (typed ''doc'')) = [(Some ''blocks'', [])]"
    by (simp add: view_groups_Sidebar loose_doc loose_categories searchQuery_typed) (simp add: entry_def)
  note T = uncategorised_entry_not_rendered [OF c, of ascii_lower loose_items False "typed ''doc''"]
  from T d have "entry ''u'' ''Docs'' None
      \<notin> row_item ` set (rendered_rows (Sidebar ascii_lower loose_items False (typed ''doc'')))"
    by blast
  moreover from T have "view_indicator (Sidebar ascii_lower loose_items False (typed ''doc''))
      = Some [Number 1, Literal '' results for \"'', Chars ''doc'', Literal ''\"'']"
    by (simp add: searchQuery_typed loose_doc)
  ultimately show ?thesis
    using c g loose_doc by blast
qed

end
